theory Spec2Isabelle
  imports Complex_Main "HOL-Library.AList" "HOL-Library.Code_Target_Numeral"
begin

section \<open>Strings\<close>

text \<open>
  A JavaScript string is modelled as a list of code units below 256 (\<^typ>\<open>string\<close>).
\<close>

definition startsWith :: "string \<Rightarrow> string \<Rightarrow> bool" where
  "startsWith s p \<longleftrightarrow> take (length p) s = p"

definition is_digit :: "char \<Rightarrow> bool" where
  "is_digit c \<longleftrightarrow> 48 \<le> (of_char c :: nat) \<and> (of_char c :: nat) \<le> 57"

definition is_letter_or_dash :: "char \<Rightarrow> bool" where
  "is_letter_or_dash c \<longleftrightarrow>
     (97 \<le> (of_char c :: nat) \<and> (of_char c :: nat) \<le> 122) \<or>
     (65 \<le> (of_char c :: nat) \<and> (of_char c :: nat) \<le> 90) \<or> c = CHR ''-''"

definition is_letterdashnumber :: "char \<Rightarrow> bool" where
  "is_letterdashnumber c \<longleftrightarrow> is_letter_or_dash c \<or> is_digit c"

text \<open>The white space and line terminators that \<^verbatim>\<open>String.prototype.trim\<close> removes,
  among the code units below 256.\<close>

definition is_space :: "char \<Rightarrow> bool" where
  "is_space c \<longleftrightarrow> (of_char c :: nat) \<in> {9, 10, 11, 12, 13, 32, 160}"

definition trim :: "string \<Rightarrow> string" where
  "trim s = rev (dropWhile is_space (rev (dropWhile is_space s)))"

text \<open>\<^verbatim>\<open>s.split(c)\<close> for a one-character separator.\<close>

fun split :: "char \<Rightarrow> string \<Rightarrow> string list" where
  "split c [] = [[]]"
| "split c (x # xs) =
     (if x = c then [] # split c xs
      else (case split c xs of [] \<Rightarrow> [[x]] | y # ys \<Rightarrow> (x # y) # ys))"

text \<open>The value of a string of decimal digits.\<close>

definition decimal :: "string \<Rightarrow> nat" where
  "decimal s = foldl (\<lambda>n c. 10 * n + (of_char c - 48)) 0 s"

text \<open>
  \<^verbatim>\<open>+id\<close> on a string of at most 256 decimal digits: the nearest double, ties to even
  (53 significant bits). The doubles that occur are natural numbers, so the result is given
  as a \<^typ>\<open>nat\<close>; \<open>bit_length n\<close> is the number of binary digits of \<open>n\<close>.
\<close>

fun bit_length :: "nat \<Rightarrow> nat" where
  "bit_length n = (if n = 0 then 0 else Suc (bit_length (n div 2)))"

declare bit_length.simps [simp del]

definition js_number :: "nat \<Rightarrow> nat" where
  "js_number n =
     (if n < 2 ^ 53 then n
      else let e = bit_length n - 53; q = n div 2 ^ e; r = n mod 2 ^ e; h = 2 ^ e div 2
           in if r > h \<or> (r = h \<and> odd q) then (q + 1) * 2 ^ e else q * 2 ^ e)"

text \<open>\<^verbatim>\<open>a < b\<close> on two strings: lexicographic on the code units.\<close>

fun string_less :: "string \<Rightarrow> string \<Rightarrow> bool" where
  "string_less [] [] = False"
| "string_less [] (y # ys) = True"
| "string_less (x # xs) [] = False"
| "string_less (x # xs) (y # ys) =
     (if x = y then string_less xs ys else (of_char x :: nat) < of_char y)"

section \<open>The semver package\<close>

text \<open>
  Modelled from the spec: the functions \<^verbatim>\<open>semver.gt\<close> and \<^verbatim>\<open>semver.satisfies\<close>
  that \<^verbatim>\<open>compareVersions\<close> calls belong to the npm package semver (\<^verbatim>\<open>"semver": "^7.7.1"\<close>
  in package.json), which is not among the sources. The spec names them
  ``parse as semantic versions'', ``semantic-version ordering'' and ``standard
  semantic-version range satisfaction''. The definitions below follow the package (strict
  mode, no options): the class \<^verbatim>\<open>SemVer\<close> with its regular expression \<^verbatim>\<open>FULL\<close>, and
  \<^verbatim>\<open>compare\<close>, \<^verbatim>\<open>gt\<close>.
\<close>

datatype error =
    VersionTooLong              \<comment> \<open>TypeError: version is longer than 256 characters\<close>
  | InvalidVersion string       \<comment> \<open>TypeError: Invalid Version: ...\<close>
  | InvalidMajorVersion         \<comment> \<open>TypeError: Invalid major version\<close>
  | InvalidMinorVersion
  | InvalidPatchVersion

datatype ident = Num nat | Str string

record SemVer =
  major :: nat
  minor :: nat
  patch :: nat
  prerelease :: "ident list"
  build :: "string list"

definition MAX_LENGTH :: nat where
  "MAX_LENGTH = 256"

definition MAX_SAFE_INTEGER :: nat where
  "MAX_SAFE_INTEGER = 9007199254740991"

text \<open>\<^verbatim>\<open>/^[0-9]+$/\<close>\<close>

definition numeric :: "string \<Rightarrow> bool" where
  "numeric s \<longleftrightarrow> s \<noteq> [] \<and> list_all is_digit s"

text \<open>\<^verbatim>\<open>NUMERICIDENTIFIER\<close>: \<^verbatim>\<open>0|[1-9]\d*\<close>\<close>

definition numeric_identifier :: "string \<Rightarrow> bool" where
  "numeric_identifier s \<longleftrightarrow> numeric s \<and> (s = ''0'' \<or> hd s \<noteq> CHR ''0'')"

text \<open>\<^verbatim>\<open>NONNUMERICIDENTIFIER\<close>: \<^verbatim>\<open>\d*[a-zA-Z-][a-zA-Z0-9-]*\<close>\<close>

definition nonnumeric_identifier :: "string \<Rightarrow> bool" where
  "nonnumeric_identifier s \<longleftrightarrow>
     (case dropWhile is_digit s of
        [] \<Rightarrow> False
      | c # cs \<Rightarrow> is_letter_or_dash c \<and> list_all is_letterdashnumber cs)"

definition prerelease_identifier :: "string \<Rightarrow> bool" where
  "prerelease_identifier s \<longleftrightarrow> nonnumeric_identifier s \<or> numeric_identifier s"

text \<open>\<^verbatim>\<open>BUILDIDENTIFIER\<close>: \<^verbatim>\<open>[a-zA-Z0-9-]+\<close>\<close>

definition build_identifier :: "string \<Rightarrow> bool" where
  "build_identifier s \<longleftrightarrow> s \<noteq> [] \<and> list_all is_letterdashnumber s"

text \<open>
  A match of \<^verbatim>\<open>FULL\<close>, that is
  \<^verbatim>\<open>^v?(N)\.(N)\.(N)(?:-(P(?:\.P)*))?(?:\+(B(?:\.B)*))?$\<close>, with its groups: the three numbers,
  the pre-release identifiers and the build identifiers (empty where the group is absent).
  The main version holds neither \<^verbatim>\<open>-\<close> nor \<^verbatim>\<open>+\<close> and the pre-release holds no \<^verbatim>\<open>+\<close>, so
  the first such characters end them.
\<close>

definition match_FULL :: "string \<Rightarrow> (string \<times> string \<times> string \<times> string list \<times> string list) option" where
  "match_FULL s =
     (let s1 = (if startsWith s ''v'' then drop 1 s else s);
          main = takeWhile (\<lambda>c. c \<noteq> CHR ''-'' \<and> c \<noteq> CHR ''+'') s1;
          rest = dropWhile (\<lambda>c. c \<noteq> CHR ''-'' \<and> c \<noteq> CHR ''+'') s1;
          pre = (if startsWith rest ''-''
                 then split (CHR ''.'') (takeWhile (\<lambda>c. c \<noteq> CHR ''+'') (drop 1 rest)) else []);
          rest2 = (if startsWith rest ''-''
                   then dropWhile (\<lambda>c. c \<noteq> CHR ''+'') (drop 1 rest) else rest);
          bld = (if startsWith rest2 ''+'' then split (CHR ''.'') (drop 1 rest2) else [])
      in case split (CHR ''.'') main of
           [a, b, c] \<Rightarrow>
             if list_all numeric_identifier [a, b, c] \<and> list_all prerelease_identifier pre \<and>
                list_all build_identifier bld
             then Some (a, b, c, pre, bld) else None
         | _ \<Rightarrow> None)"

text \<open>
  Modelled from the spec: ``parse as semantic versions'' is the constructor
  \<^verbatim>\<open>new SemVer(version)\<close> of the package; each \<^verbatim>\<open>throw\<close> is an \<^term>\<open>Inl\<close>.
\<close>

definition new_SemVer :: "string \<Rightarrow> error + SemVer" where
  "new_SemVer version =
     (if length version > MAX_LENGTH then Inl VersionTooLong
      else case match_FULL (trim version) of
        None \<Rightarrow> Inl (InvalidVersion version)
      | Some (a, b, c, pre, bld) \<Rightarrow>
          if js_number (decimal a) > MAX_SAFE_INTEGER then Inl InvalidMajorVersion
          else if js_number (decimal b) > MAX_SAFE_INTEGER then Inl InvalidMinorVersion
          else if js_number (decimal c) > MAX_SAFE_INTEGER then Inl InvalidPatchVersion
          else Inr \<lparr>major = decimal a, minor = decimal b, patch = decimal c,
                    prerelease = map (\<lambda>id. if numeric id \<and> js_number (decimal id) < MAX_SAFE_INTEGER
                                            then Num (decimal id) else Str id) pre,
                    build = bld\<rparr>)"

text \<open>\<^verbatim>\<open>compareIdentifiers\<close>, on numbers and strings.\<close>

fun numeric_test :: "ident \<Rightarrow> bool" where
  "numeric_test (Num n) = True"
| "numeric_test (Str s) = numeric s"

fun to_number :: "ident \<Rightarrow> nat" where
  "to_number (Num n) = n"
| "to_number (Str s) = js_number (decimal s)"

fun identifier_less :: "ident \<Rightarrow> ident \<Rightarrow> bool" where
  "identifier_less (Str s) (Str t) = string_less s t"
| "identifier_less a b = False"

definition compareIdentifiers :: "ident \<Rightarrow> ident \<Rightarrow> int" where
  "compareIdentifiers a b =
     (let anum = numeric_test a; bnum = numeric_test b in
      if anum \<and> bnum
      then (if to_number a = to_number b then 0 else if to_number a < to_number b then - 1 else 1)
      else if a = b then 0
      else if anum \<and> \<not> bnum then - 1
      else if bnum \<and> \<not> anum then 1
      else if identifier_less a b then - 1 else 1)"

definition compareMain :: "SemVer \<Rightarrow> SemVer \<Rightarrow> int" where
  "compareMain this other =
     (if compareIdentifiers (Num (major this)) (Num (major other)) \<noteq> 0
      then compareIdentifiers (Num (major this)) (Num (major other))
      else if compareIdentifiers (Num (minor this)) (Num (minor other)) \<noteq> 0
      then compareIdentifiers (Num (minor this)) (Num (minor other))
      else compareIdentifiers (Num (patch this)) (Num (patch other)))"

text \<open>The \<^verbatim>\<open>do ... while (++i)\<close> loop of \<^verbatim>\<open>comparePre\<close>.\<close>

fun comparePre_loop :: "ident list \<Rightarrow> ident list \<Rightarrow> int" where
  "comparePre_loop [] [] = 0"
| "comparePre_loop (a # as) [] = 1"
| "comparePre_loop [] (b # bs) = - 1"
| "comparePre_loop (a # as) (b # bs) =
     (if a = b then comparePre_loop as bs else compareIdentifiers a b)"

definition comparePre :: "SemVer \<Rightarrow> SemVer \<Rightarrow> int" where
  "comparePre this other =
     (if prerelease this \<noteq> [] \<and> prerelease other = [] then - 1
      else if prerelease this = [] \<and> prerelease other \<noteq> [] then 1
      else if prerelease this = [] \<and> prerelease other = [] then 0
      else comparePre_loop (prerelease this) (prerelease other))"

text \<open>
  Modelled from the spec: ``semantic-version ordering'' is \<^verbatim>\<open>SemVer.compare\<close> of the package.
  Its first test, \<^verbatim>\<open>other.version === this.version\<close>, answers 0 where the two comparisons
  below answer 0 as well, and is left out.
\<close>

definition compare :: "SemVer \<Rightarrow> SemVer \<Rightarrow> int" where
  "compare this other =
     (if compareMain this other \<noteq> 0 then compareMain this other else comparePre this other)"

text \<open>
  Modelled from the spec: \<^verbatim>\<open>semver.gt\<close>, that is
  \<^verbatim>\<open>gt(a, b) = new SemVer(a).compare(new SemVer(b)) > 0\<close>; \<^verbatim>\<open>a\<close> is parsed first.
\<close>

definition gt :: "string \<Rightarrow> string \<Rightarrow> error + bool" where
  "gt a b =
     (case new_SemVer a of
        Inl e \<Rightarrow> Inl e
      | Inr x \<Rightarrow> (case new_SemVer b of Inl e \<Rightarrow> Inl e | Inr y \<Rightarrow> Inr (compare x y > 0)))"


section \<open>The version comparator\<close>

text \<open>The result type \<^verbatim>\<open>{ isDowngrade: boolean; isRangeSatisfied?: boolean }\<close>.\<close>

record VersionRelation =
  isDowngrade :: bool
  isRangeSatisfied :: "bool option"

text \<open>\<^verbatim>\<open>s.replace(/[\^~>=<]/g, '')\<close>\<close>

definition clean :: "string \<Rightarrow> string" where
  "clean s = filter (\<lambda>c. c \<notin> set ''^~>=<'') s"

text \<open>
  \<^verbatim>\<open>DependencyManager.compareVersions\<close>. The first argument stands for \<^verbatim>\<open>semver.satisfies\<close>,
  called as \<^verbatim>\<open>satisfies(target, current)\<close>; the package catches the errors of parsing the
  range and the version and answers \<^verbatim>\<open>false\<close>, so it is a total predicate.
\<close>

definition compareVersions ::
  "(string \<Rightarrow> string \<Rightarrow> bool) \<Rightarrow> string \<Rightarrow> string \<Rightarrow> error + VersionRelation" where
  "compareVersions satisfies current target =
     (if startsWith current ''>='' \<or> startsWith current ''<='' \<or>
         startsWith current ''>'' \<or> startsWith current ''<''
      then Inr \<lparr>isDowngrade = False, isRangeSatisfied = Some (satisfies target current)\<rparr>
      else
        let cleanCurrent = clean current; cleanTarget = clean target in
        if startsWith current ''^'' \<or> startsWith current ''~''
        then (case gt cleanCurrent cleanTarget of
                Inl e \<Rightarrow> Inl e
              | Inr b \<Rightarrow> Inr \<lparr>isDowngrade = b, isRangeSatisfied = None\<rparr>)
        else (case gt cleanCurrent cleanTarget of
                Inl e \<Rightarrow> Inl e
              | Inr b \<Rightarrow> Inr \<lparr>isDowngrade = b, isRangeSatisfied = None\<rparr>))"


text \<open>
  Modelled from the spec: \<^verbatim>\<open>semver.satisfies(version, range)\<close> of the semver package, on the
  ranges that are one primitive comparator, an operator \<^verbatim>\<open>>=\<close>, \<^verbatim>\<open><=\<close>, \<^verbatim>\<open>>\<close> or \<^verbatim>\<open><\<close> directly
  followed by a full version (``standard semantic-version range satisfaction''). There the
  package parses both sides, compares them with the operator, and lets a version with a
  pre-release pass only when the comparator has one on the same major, minor and patch.
  The package accepts many more ranges (hyphens, carets, tildes, wildcards, unions); they are
  outside this definition, which answers \<open>False\<close> for them as it does for a string
  that is no range. It instantiates the parameter of \<open>compareVersions\<close> at concrete inputs.
\<close>

datatype operator = GE | LE | GT | LT

definition split_operator :: "string \<Rightarrow> (operator \<times> string) option" where
  "split_operator rng =
     (if startsWith rng ''>='' then Some (GE, drop 2 rng)
      else if startsWith rng ''<='' then Some (LE, drop 2 rng)
      else if startsWith rng ''>'' then Some (GT, drop 1 rng)
      else if startsWith rng ''<'' then Some (LT, drop 1 rng)
      else None)"

fun cmp :: "SemVer \<Rightarrow> operator \<Rightarrow> SemVer \<Rightarrow> bool" where
  "cmp a GE b = (compare a b \<ge> 0)"
| "cmp a LE b = (compare a b \<le> 0)"
| "cmp a GT b = (compare a b > 0)"
| "cmp a LT b = (compare a b < 0)"

definition satisfies_comparator :: "string \<Rightarrow> string \<Rightarrow> bool" where
  "satisfies_comparator version rng =
     (case split_operator rng of
        None \<Rightarrow> False
      | Some (op, v) \<Rightarrow>
          if v = [] \<or> \<not> is_digit (hd v) \<or> trim v \<noteq> v then False
          else (case new_SemVer v of
                  Inl e \<Rightarrow> False
                | Inr c \<Rightarrow>
                    (case new_SemVer version of
                       Inl e \<Rightarrow> False
                     | Inr x \<Rightarrow>
                         cmp x op c \<and>
                         (prerelease x = [] \<or>
                          (prerelease c \<noteq> [] \<and> major c = major x \<and> minor c = minor x \<and>
                           patch c = patch x)))))"

section \<open>Reconciliation of package.json with the catalogs\<close>

datatype DependencyType = dependencies | devDependencies | peerDependencies

text \<open>
  A JavaScript object with string keys is the list of its entries, in the order of
  \<^verbatim>\<open>Object.entries\<close>; \<open>map_of\<close> reads a property and \<open>AList.update\<close> assigns one (an
  existing key keeps its place, a new one goes last). The keys of an object are distinct;
  the theorems that need it say so. Package names that are properties of
  \<^verbatim>\<open>Object.prototype\<close> (\<^verbatim>\<open>constructor\<close>, \<^verbatim>\<open>__proto__\<close>, ...) are left out of the model.

  \<^verbatim>\<open>update\<close> is modelled from the point where package.json and the catalog files have been
  read and parsed: \<open>catalogs\<close> is \<^verbatim>\<open>Object.entries(catalogs)\<close>, the categories in the order
  in which the loop visits them, each with its catalog. The three buckets of package.json are
  read as \<^verbatim>\<open>packageJson[depType]\<close>, absent buckets being \<open>None\<close>; its other keys are
  never touched. Writing package.json is taken to succeed.
\<close>

type_synonym 'v obj = "(string \<times> 'v) list"

type_synonym PackageJson = "DependencyType \<Rightarrow> string obj option"

record UpdateInfo = VersionRelation +
  current :: string
  new :: string
  category :: string

type_synonym Updates = "DependencyType \<Rightarrow> UpdateInfo obj"

record scan =
  updates :: Updates
  hasUpdates :: bool

text \<open>A \<^verbatim>\<open>for ... of\<close> loop whose body may throw: the first error ends it.\<close>

fun for_of :: "('a \<Rightarrow> 's \<Rightarrow> error + 's) \<Rightarrow> 'a list \<Rightarrow> 's \<Rightarrow> error + 's" where
  "for_of body [] s = Inr s"
| "for_of body (x # xs) s =
     (case body x s of Inl e \<Rightarrow> Inl e | Inr s' \<Rightarrow> for_of body xs s')"

text \<open>The body of the innermost loop of \<^verbatim>\<open>update\<close>, over the catalogs.\<close>

definition checkCatalog ::
  "(string \<Rightarrow> string \<Rightarrow> bool) \<Rightarrow> DependencyType \<Rightarrow> string \<Rightarrow> string \<Rightarrow>
     string \<times> string obj \<Rightarrow> scan \<Rightarrow> error + scan" where
  "checkCatalog satisfies depType pkg currentVersion entry st =
     (case entry of (cat, catalog) \<Rightarrow>
        (case map_of catalog pkg of
           None \<Rightarrow> Inr st
         | Some v \<Rightarrow>
             if v \<noteq> [] \<and> v \<noteq> currentVersion
             then (case compareVersions satisfies currentVersion v of
                     Inl e \<Rightarrow> Inl e
                   | Inr comparison \<Rightarrow>
                       Inr \<lparr>updates = (updates st)
                              (depType := AList.update pkg
                                 \<lparr>isDowngrade = isDowngrade comparison,
                                  isRangeSatisfied = isRangeSatisfied comparison,
                                  current = currentVersion, new = v, category = cat\<rparr>
                                 (updates st depType)),
                            hasUpdates = True\<rparr>)
             else Inr st))"

definition checkPackage ::
  "(string \<Rightarrow> string \<Rightarrow> bool) \<Rightarrow> (string \<times> string obj) list \<Rightarrow> DependencyType \<Rightarrow>
     string \<times> string \<Rightarrow> scan \<Rightarrow> error + scan" where
  "checkPackage satisfies catalogs depType entry st =
     (case entry of (pkg, currentVersion) \<Rightarrow>
        for_of (checkCatalog satisfies depType pkg currentVersion) catalogs st)"

definition checkType ::
  "(string \<Rightarrow> string \<Rightarrow> bool) \<Rightarrow> PackageJson \<Rightarrow> (string \<times> string obj) list \<Rightarrow>
     DependencyType \<Rightarrow> scan \<Rightarrow> error + scan" where
  "checkType satisfies packageJson catalogs depType st =
     (case packageJson depType of
        None \<Rightarrow> Inr st
      | Some deps \<Rightarrow> for_of (checkPackage satisfies catalogs depType) deps st)"

definition dependencyTypes :: "DependencyType list" where
  "dependencyTypes = [dependencies, devDependencies, peerDependencies]"

text \<open>The first part of \<^verbatim>\<open>update\<close>: the pending changes.\<close>

definition findUpdates ::
  "(string \<Rightarrow> string \<Rightarrow> bool) \<Rightarrow> PackageJson \<Rightarrow> (string \<times> string obj) list \<Rightarrow> error + scan" where
  "findUpdates satisfies packageJson catalogs =
     for_of (checkType satisfies packageJson catalogs) dependencyTypes
       \<lparr>updates = (\<lambda>depType. []), hasUpdates = False\<rparr>"

text \<open>What \<^verbatim>\<open>update\<close> prints, line by line, without the colours.\<close>

datatype tag = AlreadySatisfied | NotSatisfied

datatype line =
    UpToDate
  | UpdatesAvailable
  | TypeHeader DependencyType
  | UpdateLine string string string string bool "tag option"
      \<comment> \<open>package, current, new, category, the mark DOWNGRADE, the range mark\<close>
  | EmptyLine
  | DryRunNote
  | Skipping string string string
  | PackageJsonUpdated

definition updateLine :: "DependencyType \<Rightarrow> string \<times> UpdateInfo \<Rightarrow> line" where
  "updateLine depType entry =
     (case entry of (pkg, info) \<Rightarrow>
        UpdateLine pkg (current info) (new info) (category info) (isDowngrade info)
          (if depType = peerDependencies
           then (case isRangeSatisfied info of
                   None \<Rightarrow> None
                 | Some b \<Rightarrow> Some (if b then AlreadySatisfied else NotSatisfied))
           else None))"

definition display :: "Updates \<Rightarrow> line list" where
  "display ups =
     concat (map (\<lambda>depType.
       if ups depType \<noteq> []
       then TypeHeader depType # map (updateLine depType) (ups depType) @ [EmptyLine]
       else []) dependencyTypes)"

text \<open>
  The second part: the changes are applied. The user's answers are a sequence, the
  \<open>k\<close>-th question getting \<open>answers k\<close>. Assigning into a bucket that package.json does not
  have throws a TypeError, which ends the loops.
\<close>

datatype failure = SemverError error | CannotSetProperty DependencyType

record applying =
  manifest :: PackageJson
  asked :: "(string \<times> string \<times> string) list"
  printed :: "line list"
  thrown :: "failure option"

definition applyUpdate ::
  "(nat \<Rightarrow> bool) \<Rightarrow> DependencyType \<Rightarrow> string \<times> UpdateInfo \<Rightarrow> applying \<Rightarrow> applying" where
  "applyUpdate answers depType entry st =
     (case entry of (pkg, info) \<Rightarrow>
        if thrown st \<noteq> None then st
        else
          let shouldUpdate1 = (if isDowngrade info then answers (length (asked st)) else True);
              st1 = (if isDowngrade info
                     then st\<lparr>asked := asked st @ [(pkg, current info, new info)]\<rparr> else st);
              skip = (depType = peerDependencies \<and> isRangeSatisfied info = Some True);
              shouldUpdate = (if skip then False else shouldUpdate1);
              st2 = (if skip
                     then st1\<lparr>printed := printed st1 @ [Skipping pkg (current info) (new info)]\<rparr>
                     else st1)
          in if shouldUpdate
             then (case manifest st2 depType of
                     None \<Rightarrow> st2\<lparr>thrown := Some (CannotSetProperty depType)\<rparr>
                   | Some deps \<Rightarrow>
                       st2\<lparr>manifest := (manifest st2)
                              (depType := Some (AList.update pkg (new info) deps))\<rparr>)
             else st2)"

definition applyUpdates :: "(nat \<Rightarrow> bool) \<Rightarrow> Updates \<Rightarrow> applying \<Rightarrow> applying" where
  "applyUpdates answers ups st =
     fold (\<lambda>depType. fold (applyUpdate answers depType) (ups depType)) dependencyTypes st"

text \<open>
  A run of \<^verbatim>\<open>update\<close>: the error that rejected it (if any), the lines printed, the
  questions asked, and the package.json that was saved (if any).
\<close>

record run =
  failed :: "failure option"
  console :: "line list"
  questions :: "(string \<times> string \<times> string) list"
  saved :: "PackageJson option"

definition update ::
  "bool \<Rightarrow> (string \<Rightarrow> string \<Rightarrow> bool) \<Rightarrow> (nat \<Rightarrow> bool) \<Rightarrow> PackageJson \<Rightarrow>
     (string \<times> string obj) list \<Rightarrow> run" where
  "update dryRun satisfies answers packageJson catalogs =
     (case findUpdates satisfies packageJson catalogs of
        Inl e \<Rightarrow> \<lparr>failed = Some (SemverError e), console = [], questions = [], saved = None\<rparr>
      | Inr found \<Rightarrow>
          if \<not> hasUpdates found
          then \<lparr>failed = None, console = [UpToDate], questions = [], saved = None\<rparr>
          else
            let shown = UpdatesAvailable # display (updates found) in
            if dryRun
            then \<lparr>failed = None, console = shown @ [DryRunNote], questions = [], saved = None\<rparr>
            else
              let st = applyUpdates answers (updates found)
                         \<lparr>manifest = packageJson, asked = [], printed = shown, thrown = None\<rparr>
              in (case thrown st of
                    Some e \<Rightarrow> \<lparr>failed = Some e, console = printed st, questions = asked st,
                               saved = None\<rparr>
                  | None \<Rightarrow> \<lparr>failed = None, console = printed st @ [PackageJsonUpdated],
                              questions = asked st, saved = Some (manifest st)\<rparr>))"


section \<open>Refreshing a catalog from the registry\<close>

text \<open>
  The file operations of \<^verbatim>\<open>updateCategory\<close>; a written catalog is given by its entries
  (\<^verbatim>\<open>JSON.stringify\<close> prints them in order).
\<close>

datatype fs_op = CopyFile string string | WriteFile string "string obj"

datatype report =
    Updating string
  | Updated string string string      \<comment> \<open>package, current, latest\<close>
  | NoChanges string string
  | ErrorUpdating string
  | UpdatedSuccessfully string
  | BackupSaved string                \<comment> \<open>the backup path, of which the code prints the base name\<close>
  | Reminder
  | NoUpdatesNeeded string
  | FileNotFound string

record refreshing =
  updatedDeps :: "string obj"
  updateCount :: nat
  reported :: "report list"

text \<open>
  The body of the loop. \<open>npm_view pkg\<close> is the output of \<^verbatim>\<open>npm view pkg version\<close>, or
  \<open>None\<close> when \<^verbatim>\<open>execSync\<close> throws.
\<close>

definition refreshPackage ::
  "(string \<Rightarrow> string option) \<Rightarrow> string \<times> string \<Rightarrow> refreshing \<Rightarrow> refreshing" where
  "refreshPackage npm_view entry st =
     (case entry of (pkg, currentVersion) \<Rightarrow>
        (case npm_view pkg of
           Some out \<Rightarrow>
             let latestVersion = trim out in
             if latestVersion \<noteq> currentVersion
             then \<lparr>updatedDeps = AList.update pkg latestVersion (updatedDeps st),
                   updateCount = updateCount st + 1,
                   reported = reported st @ [Updated pkg currentVersion latestVersion]\<rparr>
             else \<lparr>updatedDeps = AList.update pkg latestVersion (updatedDeps st),
                   updateCount = updateCount st,
                   reported = reported st @ [NoChanges pkg currentVersion]\<rparr>
         | None \<Rightarrow>
             \<lparr>updatedDeps = AList.update pkg currentVersion (updatedDeps st),
              updateCount = updateCount st,
              reported = reported st @ [ErrorUpdating pkg]\<rparr>))"

record refresh =
  lines :: "report list"
  performed :: "fs_op list"

text \<open>\<^verbatim>\<open>path.join\<close> of a directory and a file name (without its normalisation).\<close>

definition join :: "string \<Rightarrow> string \<Rightarrow> string" where
  "join dir name = dir @ ''/'' @ name"

text \<open>
  \<^verbatim>\<open>UpdateChecker.updateCategory\<close>. \<open>file\<close> is the parsed catalog, with string values, or
  \<open>None\<close> when reading or parsing it throws; \<open>fs_ok\<close> tells which file operations
  succeed, a failing one being caught by the outer \<^verbatim>\<open>catch\<close>; \<open>performed\<close> lists the
  operations that were completed, in order.
\<close>

definition updateCategory ::
  "(fs_op \<Rightarrow> bool) \<Rightarrow> (string \<Rightarrow> string option) \<Rightarrow> string \<Rightarrow> string \<Rightarrow>
     string obj option \<Rightarrow> refresh" where
  "updateCategory fs_ok npm_view catalogPath cat file =
     (let filePath = join catalogPath (cat @ ''.json'') in
      case file of
        None \<Rightarrow> \<lparr>lines = [FileNotFound cat], performed = []\<rparr>
      | Some deps \<Rightarrow>
          let st = fold (refreshPackage npm_view) deps
                     \<lparr>updatedDeps = [], updateCount = 0, reported = [Updating cat]\<rparr>
          in if updateCount st > 0
             then
               let backupPath = filePath @ ''.backup'';
                   copy = CopyFile filePath backupPath;
                   write = WriteFile filePath (updatedDeps st)
               in if \<not> fs_ok copy
                  then \<lparr>lines = reported st @ [FileNotFound cat], performed = []\<rparr>
                  else if \<not> fs_ok write
                  then \<lparr>lines = reported st @ [FileNotFound cat], performed = [copy]\<rparr>
                  else \<lparr>lines = reported st @
                                  [UpdatedSuccessfully cat, BackupSaved backupPath, Reminder],
                        performed = [copy, write]\<rparr>
             else \<lparr>lines = reported st @ [NoUpdatesNeeded cat], performed = []\<rparr>)"

section \<open>Validation of the catalog files\<close>

datatype json =
    JNull
  | JBool bool
  | JNumber real
  | JString string
  | JArray "json list"
  | JObject "(string \<times> json) list"

text \<open>
  A category file as \<^verbatim>\<open>validateCatalog\<close> meets it: absent (\<^verbatim>\<open>fs.access\<close> rejects), present but
  \<^verbatim>\<open>fs.readFile\<close> rejects, text that \<^verbatim>\<open>JSON.parse\<close> refuses with a message, or a JSON value.
\<close>

datatype category_file = Missing | Unreadable | Malformed string | Content json

datatype validation_error =
    PathDoesNotExist string             \<comment> \<open>Catalog path '...' does not exist\<close>
  | MissingCategoryFiles "string list"  \<comment> \<open>Missing category files: ...\<close>
  | MustBeObject string                 \<comment> \<open>Invalid format in c.json: must be an object\<close>
  | MustBeString string string          \<comment> \<open>Invalid version for pkg in c.json: must be a string\<close>
  | InvalidJSON string string           \<comment> \<open>Invalid JSON in c.json: message\<close>
  | ReadFailed string                   \<comment> \<open>the error of \<^verbatim>\<open>fs.readFile\<close>, thrown again\<close>

text \<open>The key of an array index, \<^verbatim>\<open>String(i)\<close>: its decimal digits.\<close>

fun index_digits :: "nat \<Rightarrow> string \<Rightarrow> string" where
  "index_digits i acc =
     (let acc' = char_of (i mod 10 + 48) # acc
      in if i div 10 = 0 then acc' else index_digits (i div 10) acc')"

declare index_digits.simps [simp del]

definition index_key :: "nat \<Rightarrow> string" where
  "index_key i = index_digits i []"

text \<open>\<^verbatim>\<open>typeof json !== 'object' || json === null\<close>\<close>

fun not_an_object :: "json \<Rightarrow> bool" where
  "not_an_object (JArray xs) = False"
| "not_an_object (JObject kvs) = False"
| "not_an_object j = True"

text \<open>\<^verbatim>\<open>Object.entries\<close> of an object or an array (whose keys are its indices).\<close>

fun entries :: "json \<Rightarrow> (string \<times> json) list" where
  "entries (JObject kvs) = kvs"
| "entries (JArray xs) = zip (map index_key [0..<length xs]) xs"
| "entries j = []"

fun is_string :: "json \<Rightarrow> bool" where
  "is_string (JString s) = True"
| "is_string j = False"

definition validateJson :: "string \<Rightarrow> json \<Rightarrow> validation_error option" where
  "validateJson cat j =
     (if not_an_object j then Some (MustBeObject cat)
      else (case find (\<lambda>(pkg, version). \<not> is_string version) (entries j) of
              Some (pkg, version) \<Rightarrow> Some (MustBeString pkg cat)
            | None \<Rightarrow> None))"

fun validateFile :: "string \<Rightarrow> category_file \<Rightarrow> validation_error option" where
  "validateFile cat (Content j) = validateJson cat j"
| "validateFile cat (Malformed message) = Some (InvalidJSON cat message)"
| "validateFile cat Unreadable = Some (ReadFailed cat)"
| "validateFile cat Missing = Some (ReadFailed cat)"

text \<open>The last loop of \<^verbatim>\<open>validateCatalog\<close>: the first category that fails ends it.\<close>

fun validateFiles :: "(string \<Rightarrow> category_file) \<Rightarrow> string list \<Rightarrow> validation_error option" where
  "validateFiles files [] = None"
| "validateFiles files (cat # cats) =
     (case validateFile cat (files cat) of
        Some e \<Rightarrow> Some e
      | None \<Rightarrow> validateFiles files cats)"

text \<open>
  \<^verbatim>\<open>validateCatalog\<close>: \<open>None\<close> when the promise resolves, the error when it rejects.
  \<open>path_ok\<close> tells whether the catalog directory is accessible and \<open>files cat\<close> what
  the file of category \<open>cat\<close> holds.
\<close>

definition validateCatalog ::
  "bool \<Rightarrow> (string \<Rightarrow> category_file) \<Rightarrow> string \<Rightarrow> string list \<Rightarrow> validation_error option" where
  "validateCatalog path_ok files catalogPath categories =
     (if \<not> path_ok then Some (PathDoesNotExist catalogPath)
      else
        let missingCategories = filter (\<lambda>cat. files cat = Missing) categories in
        if length missingCategories > 0 then Some (MissingCategoryFiles missingCategories)
        else validateFiles files categories)"

section \<open>Evaluation of the definitions on concrete inputs\<close>

lemmas semver_eval =
  gt_def new_SemVer_def match_FULL_def trim_def is_space_def startsWith_def
  numeric_identifier_def nonnumeric_identifier_def prerelease_identifier_def
  build_identifier_def numeric_def is_digit_def is_letter_or_dash_def
  is_letterdashnumber_def decimal_def js_number_def MAX_LENGTH_def MAX_SAFE_INTEGER_def
  compare_def compareMain_def compareIdentifiers_def comparePre_def clean_def
  compareVersions_def satisfies_comparator_def split_operator_def

lemmas update_eval =
  findUpdates_def checkType_def checkPackage_def checkCatalog_def dependencyTypes_def
  update_def display_def updateLine_def applyUpdates_def applyUpdate_def

section \<open>Properties of the version comparator\<close>

lemma compareIdentifiers_same: "compareIdentifiers a a = 0"
  by (simp add: compareIdentifiers_def Let_def)

lemma comparePre_loop_same: "comparePre_loop xs xs = 0"
  by (induction xs) simp_all

lemma compare_same: "compare a a = 0"
  by (simp add: compare_def compareMain_def comparePre_def compareIdentifiers_same
      comparePre_loop_same)

lemma compareVersions_plain:
  assumes "\<not> (startsWith cur ''>='' \<or> startsWith cur ''<='' \<or>
     startsWith cur ''>'' \<or> startsWith cur ''<'')"
  shows "compareVersions satisfies cur tgt =
     (case gt (clean cur) (clean tgt) of
        Inl e \<Rightarrow> Inl e
      | Inr b \<Rightarrow> Inr \<lparr>isDowngrade = b, isRangeSatisfied = None\<rparr>)"
  using assms by (simp add: compareVersions_def Let_def)

lemma new_SemVer_error:
  "new_SemVer s = Inl e \<Longrightarrow>
     e = InvalidVersion s \<or> e = VersionTooLong \<or> e = InvalidMajorVersion \<or>
     e = InvalidMinorVersion \<or> e = InvalidPatchVersion"
  by (auto simp: new_SemVer_def split: if_splits option.splits prod.splits)

text \<open>
  The step \<^verbatim>\<open>replace(/[\^~>=<]/g, '')\<close> removes the five characters and nothing else, and the
  four tests on the start of the current declaration amount to its first character being
  \<^verbatim>\<open>>\<close> or \<^verbatim>\<open><\<close>.
\<close>

lemma clean_filter:
  "clean s = filter (\<lambda>c. c \<notin> {CHR ''^'', CHR ''~'', CHR ''>'', CHR ''='', CHR ''<''}) s"
  by (simp add: clean_def)

lemma range_prefix:
  "startsWith cur ''>='' \<or> startsWith cur ''<='' \<or> startsWith cur ''>'' \<or> startsWith cur ''<'' \<longleftrightarrow>
     take 1 cur = ''>'' \<or> take 1 cur = ''<''"
  by (cases cur) (auto simp: startsWith_def)

text \<open>
  Claim C1. Let \<open>cur\<close> not start with \<^verbatim>\<open>>\<close> or \<^verbatim>\<open><\<close> (a bare version, or one with a caret or
  a tilde before it), and let \<open>stripped_cur\<close> and \<open>stripped_tgt\<close> be \<open>cur\<close> and \<open>tgt\<close>
  without their characters \<^verbatim>\<open>^\<close>, \<^verbatim>\<open>~\<close>, \<^verbatim>\<open>>\<close>, \<^verbatim>\<open>=\<close> and \<^verbatim>\<open><\<close>. When these are the semantic
  versions \<open>a\<close> and \<open>b\<close>, \<^verbatim>\<open>compareVersions\<close> returns \<^verbatim>\<open>isDowngrade\<close> true exactly when \<open>a\<close>
  is greater than \<open>b\<close> in the order of the semver package, with \<^verbatim>\<open>isRangeSatisfied\<close> absent;
  on equal inputs it returns \<^verbatim>\<open>isDowngrade\<close> false.
\<close>

theorem compareVersions_downgrade:
  assumes "take 1 cur \<noteq> ''>''" and "take 1 cur \<noteq> ''<''"
    and "stripped_cur =
           filter (\<lambda>c. c \<notin> {CHR ''^'', CHR ''~'', CHR ''>'', CHR ''='', CHR ''<''}) cur"
    and "stripped_tgt =
           filter (\<lambda>c. c \<notin> {CHR ''^'', CHR ''~'', CHR ''>'', CHR ''='', CHR ''<''}) tgt"
    and "new_SemVer stripped_cur = Inr a"
    and "new_SemVer stripped_tgt = Inr b"
  shows "compareVersions satisfies cur tgt =
           Inr \<lparr>isDowngrade = (compare a b > 0), isRangeSatisfied = None\<rparr> \<and>
         (cur = tgt \<longrightarrow>
            compareVersions satisfies cur tgt =
              Inr \<lparr>isDowngrade = False, isRangeSatisfied = None\<rparr>)"
proof -
  have plain: "\<not> (startsWith cur ''>='' \<or> startsWith cur ''<='' \<or>
     startsWith cur ''>'' \<or> startsWith cur ''<'')"
    using assms(1,2) by (simp only: range_prefix) simp
  have eq: "compareVersions satisfies cur tgt =
      Inr \<lparr>isDowngrade = (compare a b > 0), isRangeSatisfied = None\<rparr>"
    using assms(3-6) by (simp add: compareVersions_plain [OF plain] gt_def clean_filter)
  have "compare a b = 0" if "cur = tgt"
    using assms(3-6) that by (auto simp: compare_same)
  with eq show ?thesis by auto
qed

theorem compareVersions_downgrade_witness:
  "compareVersions satisfies_comparator ''~2.0.0'' ''^1.5.0'' =
     Inr \<lparr>isDowngrade = True, isRangeSatisfied = None\<rparr> \<and>
   compareVersions satisfies_comparator ''^1.5.0'' ''<=2.0.0'' =
     Inr \<lparr>isDowngrade = False, isRangeSatisfied = None\<rparr> \<and>
   compareVersions satisfies_comparator ''1.0.0'' ''1.0.0'' =
     Inr \<lparr>isDowngrade = False, isRangeSatisfied = None\<rparr>"
proof -
  let ?strip = "filter (\<lambda>c. c \<notin> {CHR ''^'', CHR ''~'', CHR ''>'', CHR ''='', CHR ''<''})"
  have s1: "''2.0.0'' = ?strip ''~2.0.0''" and s2: "''1.5.0'' = ?strip ''^1.5.0''"
    and s3: "''2.0.0'' = ?strip ''<=2.0.0''" and s4: "''1.0.0'' = ?strip ''1.0.0''"
    by simp_all
  have v1: "new_SemVer ''2.0.0'' =
      Inr \<lparr>major = 2, minor = 0, patch = 0, prerelease = [], build = []\<rparr>"
    and v2: "new_SemVer ''1.5.0'' =
      Inr \<lparr>major = 1, minor = 5, patch = 0, prerelease = [], build = []\<rparr>"
    and v3: "new_SemVer ''1.0.0'' =
      Inr \<lparr>major = 1, minor = 0, patch = 0, prerelease = [], build = []\<rparr>"
    by code_simp+
  have g1: "compare \<lparr>major = 2, minor = 0, patch = 0, prerelease = [], build = []\<rparr>
      \<lparr>major = 1, minor = 5, patch = 0, prerelease = [], build = []\<rparr> > 0"
    by code_simp
  have g2: "\<not> compare \<lparr>major = 1, minor = 5, patch = 0, prerelease = [], build = []\<rparr>
      \<lparr>major = 2, minor = 0, patch = 0, prerelease = [], build = []\<rparr> > 0"
    by code_simp
  have t1: "take 1 ''~2.0.0'' \<noteq> ''>''" "take 1 ''~2.0.0'' \<noteq> ''<''"
    and t2: "take 1 ''^1.5.0'' \<noteq> ''>''" "take 1 ''^1.5.0'' \<noteq> ''<''"
    and t3: "take 1 ''1.0.0'' \<noteq> ''>''" "take 1 ''1.0.0'' \<noteq> ''<''"
    by simp_all
  show ?thesis
    using conjunct1 [OF compareVersions_downgrade [OF t1 s1 s2 v1 v2, of satisfies_comparator]]
      conjunct1 [OF compareVersions_downgrade [OF t2 s2 s3 v2 v1, of satisfies_comparator]]
      conjunct2 [OF compareVersions_downgrade [OF t3 s4 s4 v3 v3, of satisfies_comparator]]
      g1 g2
    by simp
qed

text \<open>
  Claim C2. When \<open>cur\<close> starts with \<^verbatim>\<open>>=\<close>, \<^verbatim>\<open><=\<close>, \<^verbatim>\<open>>\<close> or \<^verbatim>\<open><\<close>, \<^verbatim>\<open>compareVersions\<close> returns
  \<^verbatim>\<open>isDowngrade\<close> false and \<^verbatim>\<open>isRangeSatisfied\<close> equal to \<^verbatim>\<open>satisfies(tgt, cur)\<close>.
\<close>

theorem compareVersions_range:
  assumes "startsWith cur ''>='' \<or> startsWith cur ''<='' \<or>
     startsWith cur ''>'' \<or> startsWith cur ''<''"
  shows "compareVersions satisfies cur tgt =
     Inr \<lparr>isDowngrade = False, isRangeSatisfied = Some (satisfies tgt cur)\<rparr>"
  using assms by (simp add: compareVersions_def)

theorem compareVersions_range_witness:
  "compareVersions satisfies_comparator ''>=1.0.0'' ''1.5.0'' =
     Inr \<lparr>isDowngrade = False, isRangeSatisfied = Some True\<rparr> \<and>
   compareVersions satisfies_comparator ''<2.0.0'' ''2.5.0'' =
     Inr \<lparr>isDowngrade = False, isRangeSatisfied = Some False\<rparr>"
proof -
  have r1: "startsWith ''>=1.0.0'' ''>='' \<or> startsWith ''>=1.0.0'' ''<='' \<or>
     startsWith ''>=1.0.0'' ''>'' \<or> startsWith ''>=1.0.0'' ''<''"
    by (simp add: startsWith_def)
  have r2: "startsWith ''<2.0.0'' ''>='' \<or> startsWith ''<2.0.0'' ''<='' \<or>
     startsWith ''<2.0.0'' ''>'' \<or> startsWith ''<2.0.0'' ''<''"
    by (simp add: startsWith_def)
  have s1: "satisfies_comparator ''1.5.0'' ''>=1.0.0'' = True"
    by code_simp
  have s2: "satisfies_comparator ''2.5.0'' ''<2.0.0'' = False"
    by code_simp
  show ?thesis
    using compareVersions_range [OF r1, of satisfies_comparator "''1.5.0''"]
      compareVersions_range [OF r2, of satisfies_comparator "''2.5.0''"] s1 s2
    by simp
qed

text \<open>
  Claim C8, as stated, fails: \<^verbatim>\<open>banana\<close> is no version, yet with a range as current
  declaration the comparator returns a classification; and \<^verbatim>\<open>1.=0.0\<close> is no version, yet it
  is compared as \<^verbatim>\<open>1.0.0\<close> once \<^verbatim>\<open>=\<close> is removed.
\<close>

theorem compareVersions_malformed_counterexample:
  "new_SemVer ''banana'' = Inl (InvalidVersion ''banana'') \<and>
   compareVersions satisfies_comparator ''>=1.0.0'' ''banana'' =
     Inr \<lparr>isDowngrade = False, isRangeSatisfied = Some False\<rparr> \<and>
   new_SemVer ''1.=0.0'' = Inl (InvalidVersion ''1.=0.0'') \<and>
   compareVersions satisfies_comparator ''2.0.0'' ''1.=0.0'' =
     Inr \<lparr>isDowngrade = True, isRangeSatisfied = None\<rparr>"
  by code_simp

text \<open>
  Claim C8, amended. Let \<open>stripped_cur\<close> and \<open>stripped_tgt\<close> be \<open>cur\<close> and \<open>tgt\<close> without
  their characters \<^verbatim>\<open>^\<close>, \<^verbatim>\<open>~\<close>, \<^verbatim>\<open>>\<close>, \<^verbatim>\<open>=\<close> and \<^verbatim>\<open><\<close>. When \<open>cur\<close> starts with \<^verbatim>\<open>>\<close> or \<^verbatim>\<open><\<close>,
  \<^verbatim>\<open>compareVersions\<close> does not fail: it returns \<^verbatim>\<open>isDowngrade\<close> false and \<^verbatim>\<open>isRangeSatisfied\<close>
  equal to \<^verbatim>\<open>satisfies(tgt, cur)\<close>, whatever the two strings are. Otherwise it fails exactly
  when the constructor \<^verbatim>\<open>SemVer\<close> refuses \<open>stripped_cur\<close>, or accepts it and refuses
  \<open>stripped_tgt\<close>; the error is that constructor's: \<^verbatim>\<open>Invalid Version\<close> with the stripped
  string, or one of the errors on the length and on the size of the numbers.
\<close>

theorem compareVersions_failure:
  assumes "stripped_cur =
           filter (\<lambda>c. c \<notin> {CHR ''^'', CHR ''~'', CHR ''>'', CHR ''='', CHR ''<''}) cur"
    and "stripped_tgt =
           filter (\<lambda>c. c \<notin> {CHR ''^'', CHR ''~'', CHR ''>'', CHR ''='', CHR ''<''}) tgt"
  shows "(take 1 cur = ''>'' \<or> take 1 cur = ''<'' \<longrightarrow>
            compareVersions satisfies cur tgt =
              Inr \<lparr>isDowngrade = False, isRangeSatisfied = Some (satisfies tgt cur)\<rparr>) \<and>
         (compareVersions satisfies cur tgt = Inl e \<longleftrightarrow>
            take 1 cur \<noteq> ''>'' \<and> take 1 cur \<noteq> ''<'' \<and>
            (new_SemVer stripped_cur = Inl e \<or>
             (\<exists>a. new_SemVer stripped_cur = Inr a) \<and> new_SemVer stripped_tgt = Inl e)) \<and>
         (compareVersions satisfies cur tgt = Inl e \<longrightarrow>
            e = InvalidVersion stripped_cur \<or> e = InvalidVersion stripped_tgt \<or>
            e = VersionTooLong \<or> e = InvalidMajorVersion \<or> e = InvalidMinorVersion \<or>
            e = InvalidPatchVersion)"
proof -
  let ?range = "startsWith cur ''>='' \<or> startsWith cur ''<='' \<or>
         startsWith cur ''>'' \<or> startsWith cur ''<''"
  have sc: "clean cur = stripped_cur" and st: "clean tgt = stripped_tgt"
    using assms by (simp_all add: clean_filter)
  have rng: "compareVersions satisfies cur tgt =
      Inr \<lparr>isDowngrade = False, isRangeSatisfied = Some (satisfies tgt cur)\<rparr>"
    if "take 1 cur = ''>'' \<or> take 1 cur = ''<''"
  proof -
    from that have ?range by (simp only: range_prefix)
    then show ?thesis by (simp add: compareVersions_def)
  qed
  have iff: "compareVersions satisfies cur tgt = Inl e \<longleftrightarrow>
      take 1 cur \<noteq> ''>'' \<and> take 1 cur \<noteq> ''<'' \<and>
      (new_SemVer stripped_cur = Inl e \<or>
       (\<exists>a. new_SemVer stripped_cur = Inr a) \<and> new_SemVer stripped_tgt = Inl e)"
  proof (cases "take 1 cur = ''>'' \<or> take 1 cur = ''<''")
    case True
    then show ?thesis using rng by auto
  next
    case False
    then have "\<not> ?range" by (simp only: range_prefix) simp
    then show ?thesis
      using False
      by (auto simp: compareVersions_plain gt_def sc st split: sum.splits)
  qed
  have shape: "compareVersions satisfies cur tgt = Inl e \<Longrightarrow>
      e = InvalidVersion stripped_cur \<or> e = InvalidVersion stripped_tgt \<or>
      e = VersionTooLong \<or> e = InvalidMajorVersion \<or> e = InvalidMinorVersion \<or>
      e = InvalidPatchVersion"
    using iff new_SemVer_error [of stripped_cur e] new_SemVer_error [of stripped_tgt e]
    by blast
  show ?thesis using rng iff shape by blast
qed

theorem compareVersions_failure_witness:
  "compareVersions satisfies_comparator ''~abc'' ''1.0.0'' = Inl (InvalidVersion ''abc'') \<and>
   compareVersions satisfies_comparator ''^1.0.0'' ''<=1.x'' = Inl (InvalidVersion ''1.x'') \<and>
   compareVersions satisfies_comparator ''>=abc'' ''1.0.0'' =
     Inr \<lparr>isDowngrade = False, isRangeSatisfied = Some False\<rparr>"
proof -
  let ?strip = "filter (\<lambda>c. c \<notin> {CHR ''^'', CHR ''~'', CHR ''>'', CHR ''='', CHR ''<''})"
  have s1: "''abc'' = ?strip ''~abc''" and s2: "''1.0.0'' = ?strip ''1.0.0''"
    and s3: "''1.0.0'' = ?strip ''^1.0.0''" and s4: "''1.x'' = ?strip ''<=1.x''"
    and s5: "''abc'' = ?strip ''>=abc''"
    by simp_all
  have e1: "new_SemVer ''abc'' = Inl (InvalidVersion ''abc'')"
    and e2: "new_SemVer ''1.x'' = Inl (InvalidVersion ''1.x'')"
    and v: "new_SemVer ''1.0.0'' =
      Inr \<lparr>major = 1, minor = 0, patch = 0, prerelease = [], build = []\<rparr>"
    by code_simp+
  have t1: "take 1 ''~abc'' \<noteq> ''>'' \<and> take 1 ''~abc'' \<noteq> ''<''"
    and t2: "take 1 ''^1.0.0'' \<noteq> ''>'' \<and> take 1 ''^1.0.0'' \<noteq> ''<''"
    and t3: "take 1 ''>=abc'' = ''>'' \<or> take 1 ''>=abc'' = ''<''"
    by simp_all
  have f: "satisfies_comparator ''1.0.0'' ''>=abc'' = False"
    by code_simp
  have w1: "compareVersions satisfies_comparator ''~abc'' ''1.0.0'' = Inl (InvalidVersion ''abc'')"
    using compareVersions_failure [OF s1 s2, of satisfies_comparator "InvalidVersion ''abc''"] t1 e1
    by blast
  have w2: "compareVersions satisfies_comparator ''^1.0.0'' ''<=1.x'' = Inl (InvalidVersion ''1.x'')"
    using compareVersions_failure [OF s3 s4, of satisfies_comparator "InvalidVersion ''1.x''"] t2 e2 v
    by blast
  have w3: "compareVersions satisfies_comparator ''>=abc'' ''1.0.0'' =
     Inr \<lparr>isDowngrade = False, isRangeSatisfied = Some False\<rparr>"
    using compareVersions_failure [OF s5 s2, of satisfies_comparator] t3 f
    by simp
  show ?thesis using w1 w2 w3 by blast
qed

section \<open>Properties of the validation\<close>

lemma validateJson_accepts:
  "validateJson cat j = None \<longleftrightarrow>
     (case j of
        JObject kvs \<Rightarrow> list_all is_string (map snd kvs)
      | JArray xs \<Rightarrow> list_all is_string xs
      | _ \<Rightarrow> False)"
proof -
  have none: "(case find (\<lambda>(pkg, version). \<not> is_string version) es of
                 Some (pkg, version) \<Rightarrow> Some (MustBeString pkg cat)
               | None \<Rightarrow> None) = None \<longleftrightarrow> list_all is_string (map snd es)" for es
    by (induction es) (auto split: prod.splits)
  have arr: "map snd (zip (map index_key [0..<length xs]) xs) = xs" for xs :: "json list"
    by simp
  show ?thesis
    by (cases j) (simp_all add: validateJson_def none arr del: upt_Suc)
qed

text \<open>
  Claim C9. \<^verbatim>\<open>validateCatalog\<close> is to reject every catalog whose top-level value is not an
  object, arrays included. It does not: \<^verbatim>\<open>typeof\<close> of an array is \<^verbatim>\<open>'object'\<close>, so a category
  file holding \<^verbatim>\<open>["18.2.0"]\<close> or \<^verbatim>\<open>[]\<close> passes, and what is accepted is any object or array
  whose values are all strings.
\<close>

theorem validateCatalog_accepts_array:
  "validateCatalog True (\<lambda>cat. Content (JArray [JString ''18.2.0''])) ''catalog'' [''core''] = None \<and>
   validateCatalog True (\<lambda>cat. Content (JArray [])) ''catalog'' [''core''] = None \<and>
   (validateJson cat j = None \<longleftrightarrow>
     (case j of
        JObject kvs \<Rightarrow> list_all is_string (map snd kvs)
      | JArray xs \<Rightarrow> list_all is_string xs
      | _ \<Rightarrow> False))"
proof -
  have "validateCatalog True (\<lambda>cat. Content (JArray [JString ''18.2.0''])) ''catalog'' [''core''] = None"
    by (simp add: validateCatalog_def validateJson_def)
  moreover have "validateCatalog True (\<lambda>cat. Content (JArray [])) ''catalog'' [''core''] = None"
    by (simp add: validateCatalog_def validateJson_def)
  ultimately show ?thesis
    using validateJson_accepts [of cat j] by blast
qed

section \<open>Properties of the reconciliation\<close>

lemma for_of_append:
  "for_of body (xs @ ys) s =
     (case for_of body xs s of Inl e \<Rightarrow> Inl e | Inr s' \<Rightarrow> for_of body ys s')"
  by (induction xs arbitrary: s) (auto split: sum.splits)

lemma for_of_replace:
  "body x = body y \<Longrightarrow> for_of body (before @ x # after) s = for_of body (before @ y # after) s"
  by (auto simp: for_of_append split: sum.splits)

lemma dependencyTypes_all: "d \<in> set dependencyTypes"
  by (cases d) (simp_all add: dependencyTypes_def)

lemma display_contains:
  assumes "entry \<in> set (ups d)"
  shows "updateLine d entry \<in> set (display ups)"
proof -
  have "ups d \<noteq> []" using assms by auto
  then show ?thesis
    using assms dependencyTypes_all [of d] by (force simp: display_def)
qed

text \<open>
  Claim C4. With \<^verbatim>\<open>dryRun\<close> true, \<^verbatim>\<open>update\<close> saves no package.json and asks no question,
  whatever the catalogs hold; when there are pending changes it prints all of them, one
  line for each, followed by the dry-run note.
\<close>

theorem update_dryRun:
  "saved (update True satisfies answers packageJson catalogs) = None \<and>
   questions (update True satisfies answers packageJson catalogs) = [] \<and>
   (findUpdates satisfies packageJson catalogs = Inr found \<and> hasUpdates found \<longrightarrow>
      console (update True satisfies answers packageJson catalogs) =
        UpdatesAvailable # display (updates found) @ [DryRunNote] \<and>
      (\<forall>d entry. entry \<in> set (updates found d) \<longrightarrow>
         updateLine d entry \<in> set (console (update True satisfies answers packageJson catalogs))))"
  by (auto simp: update_def Let_def display_contains split: sum.splits)

theorem update_dryRun_witness:
  "saved (update True satisfies_comparator (\<lambda>k. True)
      ((\<lambda>d. None)(dependencies := Some [(''react'', ''^18.2.0'')]))
      [(''core'', [(''react'', ''17.0.0'')])]) = None \<and>
   questions (update True satisfies_comparator (\<lambda>k. True)
      ((\<lambda>d. None)(dependencies := Some [(''react'', ''^18.2.0'')]))
      [(''core'', [(''react'', ''17.0.0'')])]) = [] \<and>
   console (update True satisfies_comparator (\<lambda>k. True)
      ((\<lambda>d. None)(dependencies := Some [(''react'', ''^18.2.0'')]))
      [(''core'', [(''react'', ''17.0.0'')])]) =
     [UpdatesAvailable, TypeHeader dependencies,
      UpdateLine ''react'' ''^18.2.0'' ''17.0.0'' ''core'' True None, EmptyLine, DryRunNote] \<and>
   updateLine dependencies
      (''react'', \<lparr>isDowngrade = True, isRangeSatisfied = None, current = ''^18.2.0'',
         new = ''17.0.0'', category = ''core''\<rparr>)
     \<in> set (console (update True satisfies_comparator (\<lambda>k. True)
          ((\<lambda>d. None)(dependencies := Some [(''react'', ''^18.2.0'')]))
          [(''core'', [(''react'', ''17.0.0'')])]))"
proof -
  let ?info = "\<lparr>isDowngrade = True, isRangeSatisfied = None, current = ''^18.2.0'',
      new = ''17.0.0'', category = ''core''\<rparr>"
  let ?found = "\<lparr>updates = (\<lambda>d. [])(dependencies := [(''react'', ?info)]), hasUpdates = True\<rparr>"
  have f: "findUpdates satisfies_comparator
      ((\<lambda>d. None)(dependencies := Some [(''react'', ''^18.2.0'')]))
      [(''core'', [(''react'', ''17.0.0'')])] = Inr ?found"
    by (simp add: update_eval semver_eval)
  have h: "hasUpdates ?found" by simp
  have d: "display (updates ?found) = [TypeHeader dependencies,
      UpdateLine ''react'' ''^18.2.0'' ''17.0.0'' ''core'' True None, EmptyLine]"
    by (simp add: display_def dependencyTypes_def updateLine_def)
  show ?thesis
    using update_dryRun [of satisfies_comparator "\<lambda>k. True"
        "(\<lambda>d. None)(dependencies := Some [(''react'', ''^18.2.0'')])"
        "[(''core'', [(''react'', ''17.0.0'')])]" ?found] f h d
    by (simp add: updateLine_def)
qed

lemma checkCatalog_empty_version:
  assumes "map_of catalog pkg = Some []"
  shows "checkCatalog satisfies d p cur (cat, catalog) =
         checkCatalog satisfies d p cur (cat, AList.delete pkg catalog)"
  using assms by (auto simp: checkCatalog_def fun_eq_iff delete_conv')

text \<open>
  Claim C10. A catalog entry whose version is the empty string produces no pending change:
  the loop body leaves the state as it is, and \<^verbatim>\<open>update\<close> behaves as if the catalog did
  not have the entry.
\<close>

theorem update_empty_version:
  assumes "map_of catalog pkg = Some []"
  shows "checkCatalog satisfies depType pkg cur (cat, catalog) st = Inr st \<and>
         findUpdates satisfies packageJson (before @ (cat, catalog) # after) =
           findUpdates satisfies packageJson (before @ (cat, AList.delete pkg catalog) # after) \<and>
         update dryRun satisfies answers packageJson (before @ (cat, catalog) # after) =
           update dryRun satisfies answers packageJson
             (before @ (cat, AList.delete pkg catalog) # after)"
proof -
  have step: "checkCatalog satisfies depType pkg cur (cat, catalog) st = Inr st"
    using assms by (simp add: checkCatalog_def)
  have pk: "checkPackage satisfies (before @ (cat, catalog) # after) =
      checkPackage satisfies (before @ (cat, AList.delete pkg catalog) # after)"
    by (auto simp: checkPackage_def fun_eq_iff
        intro!: for_of_replace checkCatalog_empty_version [OF assms])
  have ty: "checkType satisfies packageJson (before @ (cat, catalog) # after) =
      checkType satisfies packageJson (before @ (cat, AList.delete pkg catalog) # after)"
    by (simp add: checkType_def fun_eq_iff pk split: option.splits)
  have fu: "findUpdates satisfies packageJson (before @ (cat, catalog) # after) =
      findUpdates satisfies packageJson (before @ (cat, AList.delete pkg catalog) # after)"
    by (simp add: findUpdates_def ty)
  show ?thesis
    by (simp add: step fu update_def)
qed

theorem update_empty_version_witness:
  "update False satisfies_comparator (\<lambda>k. True)
      ((\<lambda>d. None)(dependencies := Some [(''react'', ''17.0.0'')]))
      [(''core'', [(''react'', '''')])] =
     \<lparr>failed = None, console = [UpToDate], questions = [], saved = None\<rparr>"
proof -
  have h: "map_of [(''react'', '''')] ''react'' = Some []"
    by simp
  have r: "update False satisfies_comparator (\<lambda>k. True)
      ((\<lambda>d. None)(dependencies := Some [(''react'', ''17.0.0'')]))
      [(''core'', AList.delete ''react'' [(''react'', '''')])] =
     \<lparr>failed = None, console = [UpToDate], questions = [], saved = None\<rparr>"
    by (simp add: update_eval AList.delete_eq)
  show ?thesis
    using update_empty_version [OF h, of satisfies_comparator dependencies "''17.0.0''" "''core''"
        "\<lparr>updates = (\<lambda>d. []), hasUpdates = False\<rparr>"
        "(\<lambda>d. None)(dependencies := Some [(''react'', ''17.0.0'')])" "[]" "[]" False "\<lambda>k. True"] r
    by simp
qed

section \<open>The scan for pending changes\<close>

lemma for_of_invariant:
  assumes "for_of body xs s = Inr s'" and "P s"
    and "\<And>x t t'. x \<in> set xs \<Longrightarrow> P t \<Longrightarrow> body x t = Inr t' \<Longrightarrow> P t'"
  shows "P s'"
  using assms
proof (induction xs arbitrary: s)
  case Nil
  then show ?case by simp
next
  case (Cons x xs)
  from Cons.prems(1) obtain t where t: "body x s = Inr t" and rest: "for_of body xs t = Inr s'"
    by (auto split: sum.splits)
  have "P t" using Cons.prems(3) [of x s t] Cons.prems(2) t by simp
  moreover have "P u'" if "y \<in> set xs" "P u" "body y u = Inr u'" for y u u'
    using Cons.prems(3) [of y u u'] that by simp
  ultimately show ?case by (rule Cons.IH [OF rest])
qed


lemma checkCatalog_Inr:
  assumes "checkCatalog sat d pkg cur (cat, cl) st = Inr st'"
  shows "st' = st \<or>
    (\<exists>v cmp. map_of cl pkg = Some v \<and> v \<noteq> [] \<and> v \<noteq> cur \<and>
       compareVersions sat cur v = Inr cmp \<and>
       st' = \<lparr>updates = (updates st)
                 (d := AList.update pkg
                    \<lparr>isDowngrade = isDowngrade cmp, isRangeSatisfied = isRangeSatisfied cmp,
                     current = cur, new = v, category = cat\<rparr> (updates st d)),
               hasUpdates = True\<rparr>)"
  using assms
  by (auto simp: checkCatalog_def split: option.splits if_splits sum.splits)



text \<open>An invariant of the innermost loop body is one of each loop around it.\<close>

lemma checkPackage_invariant:
  assumes "checkPackage sat cats d (pkg, cur) st = Inr st'" and "P st"
    and "\<And>entry t t'. entry \<in> set cats \<Longrightarrow> P t \<Longrightarrow>
           checkCatalog sat d pkg cur entry t = Inr t' \<Longrightarrow> P t'"
  shows "P st'"
  using assms(1) unfolding checkPackage_def prod.case
  by (rule for_of_invariant [where P = P]) (use assms(2,3) in auto)

lemma checkType_invariant:
  assumes "checkType sat pj cats d st = Inr st'" and "P st"
    and "\<And>deps pkg cur entry t t'. pj d = Some deps \<Longrightarrow> (pkg, cur) \<in> set deps \<Longrightarrow>
           entry \<in> set cats \<Longrightarrow> P t \<Longrightarrow>
           checkCatalog sat d pkg cur entry t = Inr t' \<Longrightarrow> P t'"
  shows "P st'"
proof (cases "pj d")
  case None
  then show ?thesis using assms(1,2) by (simp add: checkType_def)
next
  case (Some deps)
  then have loop: "for_of (checkPackage sat cats d) deps st = Inr st'"
    using assms(1) by (simp add: checkType_def)
  show ?thesis
  proof (rule for_of_invariant [OF loop, where P = P])
    show "P st" by (rule assms(2))
  next
    fix x t t'
    assume x: "x \<in> set deps" and t: "P t" and step: "checkPackage sat cats d x t = Inr t'"
    obtain pkg cur where xe: "x = (pkg, cur)" by (cases x)
    show "P t'"
      using step unfolding xe
      by (rule checkPackage_invariant [where P = P]) (use t x xe Some assms(3) in auto)
  qed
qed

lemma types_invariant:
  assumes "for_of (checkType sat pj cats) ts st = Inr st'" and "P st"
    and "\<And>d deps pkg cur entry t t'. d \<in> set ts \<Longrightarrow> pj d = Some deps \<Longrightarrow>
           (pkg, cur) \<in> set deps \<Longrightarrow> entry \<in> set cats \<Longrightarrow> P t \<Longrightarrow>
           checkCatalog sat d pkg cur entry t = Inr t' \<Longrightarrow> P t'"
  shows "P st'"
proof (rule for_of_invariant [OF assms(1), where P = P])
  show "P st" by (rule assms(2))
next
  fix d t t'
  assume d: "d \<in> set ts" and t: "P t" and step: "checkType sat pj cats d t = Inr t'"
  show "P t'"
    using step by (rule checkType_invariant [where P = P]) (use t d assms(3) in auto)
qed

lemma set_update_subset: "set (AList.update k v al) \<subseteq> insert (k, v) (set al)"
  by (induction al) auto










lemma findUpdates_entries:
  assumes "findUpdates sat pj cats = Inr found" and "(p, info) \<in> set (updates found d)"
  shows "(\<exists>deps. pj d = Some deps \<and> p \<in> fst ` set deps) \<and>
         (\<exists>c \<in> set cats. map_of (snd c) p = Some (new info)) \<and> new info \<noteq> []"
proof -
  let ?Q = "\<lambda>d p info. (\<exists>deps. pj d = Some deps \<and> p \<in> fst ` set deps) \<and>
         (\<exists>c \<in> set cats. map_of (snd c) p = Some (new info)) \<and> new info \<noteq> []"
  let ?P = "\<lambda>t. \<forall>d p info. (p, info) \<in> set (updates t d) \<longrightarrow> ?Q d p info"
  have "?P found"
  proof (rule types_invariant [OF assms(1) [unfolded findUpdates_def], where P = ?P])
    show "?P \<lparr>updates = \<lambda>depType. [], hasUpdates = False\<rparr>" by simp
  next
    fix d' deps pkg cur entry t t'
    assume b: "pj d' = Some deps" and m: "(pkg, cur) \<in> set deps" and c: "entry \<in> set cats"
      and t: "?P t" and s: "checkCatalog sat d' pkg cur entry t = Inr t'"
    obtain cat cl where e: "entry = (cat, cl)" by (cases entry)
    from checkCatalog_Inr [OF s [unfolded e]]
    consider "t' = t"
      | v i where "map_of cl pkg = Some v" "v \<noteq> []" "new i = v"
          "updates t' = (updates t)(d' := AList.update pkg i (updates t d'))"
      by force
    then show "?P t'"
    proof cases
      case 1
      then show ?thesis using t by simp
    next
      case 2
      have q: "?Q d' pkg i"
        using b m c e 2(1-3) by force
      show ?thesis
      proof (intro allI impI)
        fix d p info
        assume mem: "(p, info) \<in> set (updates t' d)"
        show "?Q d p info"
        proof (cases "d = d'")
          case False
          then show ?thesis using mem 2(4) t by simp
        next
          case True
          then have "(p, info) \<in> insert (pkg, i) (set (updates t d'))"
            using mem 2(4) set_update_subset [of pkg i "updates t d'"] by auto
          then show ?thesis using q t True by blast
        qed
      qed
    qed
  qed
  then show ?thesis using assms(2) by blast
qed



section \<open>Applying the pending changes\<close>

lemma fold_invariant:
  assumes "P s" and "\<And>x t. x \<in> set xs \<Longrightarrow> P t \<Longrightarrow> P (f x t)"
  shows "P (fold f xs s)"
  using assms by (induction xs arbitrary: s) auto

lemma applyUpdates_invariant:
  assumes "P st"
    and "\<And>d entry t. entry \<in> set (ups d) \<Longrightarrow> P t \<Longrightarrow> P (applyUpdate answers d entry t)"
  shows "P (applyUpdates answers ups st)"
  unfolding applyUpdates_def
  by (rule fold_invariant [where P = P], rule assms(1), rule fold_invariant [where P = P])
    (use assms(2) in auto)

lemma applyUpdate_manifest:
  "manifest (applyUpdate answers d (p, i) st) = manifest st \<or>
   (\<exists>deps. manifest st d = Some deps \<and>
      manifest (applyUpdate answers d (p, i) st) =
        (manifest st)(d := Some (AList.update p (new i) deps)))"
  by (auto simp: applyUpdate_def Let_def split: option.splits)

lemma applyUpdate_skip:
  "isRangeSatisfied i = Some True \<Longrightarrow>
     manifest (applyUpdate answers peerDependencies (p, i) st) = manifest st"
  by (simp add: applyUpdate_def Let_def)

lemma applyUpdate_thrown:
  "thrown st = None \<Longrightarrow> manifest st d \<noteq> None \<Longrightarrow>
     thrown (applyUpdate answers d (p, i) st) = None"
  by (auto simp: applyUpdate_def Let_def split: option.splits)


lemma applyUpdate_other:
  assumes "d' \<noteq> d \<or> p \<noteq> pkg"
  shows "map_option (\<lambda>deps. map_of deps pkg) (manifest (applyUpdate answers d' (p, i) st) d) =
         map_option (\<lambda>deps. map_of deps pkg) (manifest st d)"
  using applyUpdate_manifest [of answers d' p i st] assms
  by (cases "d' = d") (auto simp: update_conv')

lemma applyUpdate_bucket:
  "manifest (applyUpdate answers d' (p, i) st) d = None \<longleftrightarrow> manifest st d = None"
  using applyUpdate_manifest [of answers d' p i st] by (cases "d' = d") auto


lemma distinct_same_key:
  "distinct (map fst xs) \<Longrightarrow> (k, v) \<in> set xs \<Longrightarrow> (k, w) \<in> set xs \<Longrightarrow> v = w"
  by (metis map_of_is_SomeI option.inject)

lemma applyUpdates_peer_satisfied:
  assumes "distinct (map fst (ups peerDependencies))"
    and "(pkg, info) \<in> set (ups peerDependencies)"
    and "isRangeSatisfied info = Some True"
  shows "map_option (\<lambda>deps. map_of deps pkg)
           (manifest (applyUpdates answers ups st) peerDependencies) =
         map_option (\<lambda>deps. map_of deps pkg) (manifest st peerDependencies)"
proof (rule applyUpdates_invariant)
  show "map_option (\<lambda>deps. map_of deps pkg) (manifest st peerDependencies) =
        map_option (\<lambda>deps. map_of deps pkg) (manifest st peerDependencies)"
    by simp
next
  fix d entry and t :: applying
  assume e: "entry \<in> set (ups d)"
    and t: "map_option (\<lambda>deps. map_of deps pkg) (manifest t peerDependencies) =
            map_option (\<lambda>deps. map_of deps pkg) (manifest st peerDependencies)"
  obtain p i where pi: "entry = (p, i)" by (cases entry)
  show "map_option (\<lambda>deps. map_of deps pkg)
          (manifest (applyUpdate answers d entry t) peerDependencies) =
        map_option (\<lambda>deps. map_of deps pkg) (manifest st peerDependencies)"
  proof (cases "d = peerDependencies \<and> p = pkg")
    case True
    then have "i = info"
      using e pi assms(1,2) distinct_same_key by fastforce
    then show ?thesis
      using True pi t assms(3) by (simp add: applyUpdate_skip)
  next
    case False
    then show ?thesis
      using applyUpdate_other [of d peerDependencies p pkg answers i t] pi t by auto
  qed
qed

lemma applyUpdates_no_throw:
  assumes "thrown st = None" and "\<forall>d. ups d \<noteq> [] \<longrightarrow> manifest st d \<noteq> None"
  shows "thrown (applyUpdates answers ups st) = None \<and>
         (\<forall>d. manifest (applyUpdates answers ups st) d = None \<longleftrightarrow> manifest st d = None)"
proof (rule applyUpdates_invariant
    [where P = "\<lambda>t. thrown t = None \<and> (\<forall>d. manifest t d = None \<longleftrightarrow> manifest st d = None)"])
  show "thrown st = None \<and> (\<forall>d. manifest st d = None \<longleftrightarrow> manifest st d = None)"
    using assms(1) by simp
next
  fix d entry and t :: applying
  assume e: "entry \<in> set (ups d)"
    and t: "thrown t = None \<and> (\<forall>d. manifest t d = None \<longleftrightarrow> manifest st d = None)"
  obtain p i where pi: "entry = (p, i)" by (cases entry)
  have "ups d \<noteq> []" using e by auto
  then have "manifest t d \<noteq> None" using t assms(2) by simp
  then show "thrown (applyUpdate answers d entry t) = None \<and>
      (\<forall>d'. manifest (applyUpdate answers d entry t) d' = None \<longleftrightarrow> manifest st d' = None)"
    using t unfolding pi by (simp add: applyUpdate_thrown applyUpdate_bucket)
qed





lemma update_saved:
  assumes "findUpdates sat pj cats = Inr found"
  shows "saved (update False sat answers pj cats) =
     (if hasUpdates found
      then Some (manifest (applyUpdates answers (updates found)
             \<lparr>manifest = pj, asked = [], printed = UpdatesAvailable # display (updates found),
              thrown = None\<rparr>))
      else None)"
proof -
  let ?st = "\<lparr>manifest = pj, asked = [], printed = UpdatesAvailable # display (updates found),
              thrown = None\<rparr>"
  have "\<forall>d. updates found d \<noteq> [] \<longrightarrow> manifest ?st d \<noteq> None"
  proof (intro allI impI)
    fix d assume "updates found d \<noteq> []"
    then obtain p info where "(p, info) \<in> set (updates found d)"
      by (cases "updates found d") auto
    from findUpdates_entries [OF assms this] show "manifest ?st d \<noteq> None" by auto
  qed
  then have "thrown (applyUpdates answers (updates found) ?st) = None"
    using applyUpdates_no_throw [of ?st "updates found" answers] by simp
  then show ?thesis
    using assms by (simp add: update_def Let_def)
qed

section \<open>Properties of a run of update\<close>

text \<open>
  Claim C3. In a run that is not a dry run, a pending change of the peer bucket whose
  \<^verbatim>\<open>isRangeSatisfied\<close> is true is skipped: the entry of its package in \<^verbatim>\<open>peerDependencies\<close> is
  after the changes what it was before, whatever the answers to the questions and whatever
  its \<^verbatim>\<open>isDowngrade\<close>. This holds of the loop that applies any set of pending changes (one
  per package, as the keys of an object), hence of the package.json that \<^verbatim>\<open>update\<close> saves.
\<close>

theorem update_peer_satisfied:
  assumes "distinct (map fst (ups peerDependencies))"
    and "(pkg, info) \<in> set (ups peerDependencies)"
    and "isRangeSatisfied info = Some True"
  shows "map_option (\<lambda>deps. map_of deps pkg)
           (manifest (applyUpdates answers ups st) peerDependencies) =
         map_option (\<lambda>deps. map_of deps pkg) (manifest st peerDependencies) \<and>
         (findUpdates satisfies packageJson catalogs = Inr \<lparr>updates = ups, hasUpdates = True\<rparr> \<longrightarrow>
            (\<exists>m deps deps'.
               saved (update False satisfies answers packageJson catalogs) = Some m \<and>
               packageJson peerDependencies = Some deps \<and> m peerDependencies = Some deps' \<and>
               map_of deps' pkg = map_of deps pkg))"
proof (intro conjI impI)
  show "map_option (\<lambda>deps. map_of deps pkg)
           (manifest (applyUpdates answers ups st) peerDependencies) =
         map_option (\<lambda>deps. map_of deps pkg) (manifest st peerDependencies)"
    using assms by (rule applyUpdates_peer_satisfied)
next
  assume f: "findUpdates satisfies packageJson catalogs = Inr \<lparr>updates = ups, hasUpdates = True\<rparr>"
  let ?st = "\<lparr>manifest = packageJson, asked = [], printed = UpdatesAvailable # display ups,
              thrown = None\<rparr>"
  let ?m = "manifest (applyUpdates answers ups ?st)"
  have s: "saved (update False satisfies answers packageJson catalogs) = Some ?m"
    using update_saved [OF f, of answers] by simp
  from findUpdates_entries [OF f, of pkg info peerDependencies] assms(2)
  obtain deps where deps: "packageJson peerDependencies = Some deps" by auto
  have eq: "map_option (\<lambda>deps. map_of deps pkg) (?m peerDependencies) =
      map_option (\<lambda>deps. map_of deps pkg) (manifest ?st peerDependencies)"
    using assms by (rule applyUpdates_peer_satisfied)
  then obtain deps' where "?m peerDependencies = Some deps'" "map_of deps' pkg = map_of deps pkg"
    using deps by (cases "?m peerDependencies") auto
  with s deps show "\<exists>m deps deps'.
               saved (update False satisfies answers packageJson catalogs) = Some m \<and>
               packageJson peerDependencies = Some deps \<and> m peerDependencies = Some deps' \<and>
               map_of deps' pkg = map_of deps pkg"
    by blast
qed

theorem update_peer_satisfied_witness:
  "map_option (\<lambda>deps. map_of deps ''react'')
     (manifest (applyUpdates (\<lambda>k. True)
        ((\<lambda>d. [])(peerDependencies :=
           [(''react'', \<lparr>isDowngrade = True, isRangeSatisfied = Some True,
               current = ''>=17.0.0'', new = ''16.0.0'', category = ''core''\<rparr>)]))
        \<lparr>manifest = (\<lambda>d. None)(peerDependencies := Some [(''react'', ''>=17.0.0'')]),
         asked = [], printed = [], thrown = None\<rparr>) peerDependencies) =
     Some (Some ''>=17.0.0'') \<and>
   (\<exists>m deps deps'.
      saved (update False satisfies_comparator (\<lambda>k. True)
        ((\<lambda>d. None)(peerDependencies := Some [(''react'', ''>=17.0.0'')]))
        [(''core'', [(''react'', ''18.2.0'')])]) = Some m \<and>
      ((\<lambda>d. None)(peerDependencies := Some [(''react'', ''>=17.0.0'')])) peerDependencies =
        Some deps \<and>
      m peerDependencies = Some deps' \<and> map_of deps' ''react'' = map_of deps ''react'')"
proof -
  let ?pj = "(\<lambda>d. None)(peerDependencies := Some [(''react'', ''>=17.0.0'')])"
  let ?odd = "\<lparr>isDowngrade = True, isRangeSatisfied = Some True,
      current = ''>=17.0.0'', new = ''16.0.0'', category = ''core''\<rparr>"
  let ?info = "\<lparr>isDowngrade = False, isRangeSatisfied = Some True,
      current = ''>=17.0.0'', new = ''18.2.0'', category = ''core''\<rparr>"
  let ?ups1 = "(\<lambda>d. [])(peerDependencies := [(''react'', ?odd)])"
  let ?ups2 = "(\<lambda>d. [])(peerDependencies := [(''react'', ?info)])"
  have sat: "satisfies_comparator ''18.2.0'' ''>=17.0.0''"
    by (simp add: semver_eval)
  have f: "findUpdates satisfies_comparator ?pj [(''core'', [(''react'', ''18.2.0'')])] =
      Inr \<lparr>updates = ?ups2, hasUpdates = True\<rparr>"
    using sat
    by (simp add: findUpdates_def checkType_def checkPackage_def checkCatalog_def
        dependencyTypes_def compareVersions_def startsWith_def)
  have d1: "distinct (map fst (?ups1 peerDependencies))" by simp
  have m1: "(''react'', ?odd) \<in> set (?ups1 peerDependencies)" by simp
  have d2: "distinct (map fst (?ups2 peerDependencies))" by simp
  have m2: "(''react'', ?info) \<in> set (?ups2 peerDependencies)" by simp
  have r1: "isRangeSatisfied ?odd = Some True" by simp
  have r2: "isRangeSatisfied ?info = Some True" by simp
  show ?thesis
    using conjunct1 [OF update_peer_satisfied [where ups = ?ups1 and pkg = "''react''"
          and info = ?odd and answers = "\<lambda>k. True"
          and st = "\<lparr>manifest = ?pj, asked = [], printed = [], thrown = None\<rparr>", OF d1 m1 r1]]
      conjunct2 [OF update_peer_satisfied [where ups = ?ups2 and pkg = "''react''"
          and info = ?info and satisfies = satisfies_comparator and packageJson = ?pj
          and catalogs = "[(''core'', [(''react'', ''18.2.0'')])]" and answers = "\<lambda>k. True",
          OF d2 m2 r2]] f
    by simp
qed







section \<open>Properties of the catalog refresh\<close>

lemma update_fresh: "k \<notin> fst ` set al \<Longrightarrow> AList.update k v al = al @ [(k, v)]"
  by (induction al) auto

lemma refreshPackage_fold:
  assumes "distinct (map fst deps)" and "fst ` set deps \<inter> fst ` set (updatedDeps st) = {}"
  shows "updatedDeps (fold (refreshPackage npm_view) deps st) =
           updatedDeps st @
           map (\<lambda>(pkg, cur). (pkg, case npm_view pkg of Some out \<Rightarrow> trim out | None \<Rightarrow> cur)) deps \<and>
         updateCount (fold (refreshPackage npm_view) deps st) =
           updateCount st +
           length (filter (\<lambda>(pkg, cur). \<exists>out. npm_view pkg = Some out \<and> trim out \<noteq> cur) deps)"
  using assms
proof (induction deps arbitrary: st)
  case Nil
  then show ?case by simp
next
  case (Cons entry deps)
  obtain pkg cur where entry: "entry = (pkg, cur)" by (cases entry)
  let ?st = "refreshPackage npm_view (pkg, cur) st"
  have fresh: "pkg \<notin> fst ` set (updatedDeps st)"
    using Cons.prems(2) entry by auto
  have ud: "updatedDeps ?st = updatedDeps st @
      [(pkg, case npm_view pkg of Some out \<Rightarrow> trim out | None \<Rightarrow> cur)]"
    using fresh by (simp add: refreshPackage_def Let_def update_fresh split: option.splits)
  have uc: "updateCount ?st = updateCount st +
      (if \<exists>out. npm_view pkg = Some out \<and> trim out \<noteq> cur then 1 else 0)"
    by (simp add: refreshPackage_def Let_def split: option.splits)
  have d: "distinct (map fst deps)" using Cons.prems(1) by simp
  have keys: "fst ` set (updatedDeps ?st) = insert pkg (fst ` set (updatedDeps st))"
    by (simp add: ud)
  have disj: "fst ` set deps \<inter> fst ` set (updatedDeps ?st) = {}"
    unfolding keys using Cons.prems entry by force
  show ?case
    unfolding entry using Cons.IH [OF d disj] by (simp add: ud uc)
qed

text \<open>
  Claim C7. For a catalog with distinct package names: if the registry gives some package
  a version other than the catalog's, \<^verbatim>\<open>updateCategory\<close> copies the catalog file to its
  backup and then writes the whole updated catalog (the write never happens without the
  copy before it); if no package changed it performs no file operation; a package whose
  lookup fails keeps its version in the updated catalog.
\<close>

theorem updateCategory_backup:
  assumes "distinct (map fst deps)"
  shows
    "((\<exists>entry \<in> set deps. \<exists>out. npm_view (fst entry) = Some out \<and> trim out \<noteq> snd entry) \<longrightarrow>
        performed (updateCategory fs_ok npm_view catalogPath cat (Some deps)) =
          (let filePath = join catalogPath (cat @ ''.json'');
               copy = CopyFile filePath (filePath @ ''.backup'');
               write = WriteFile filePath
                 (map (\<lambda>(pkg, cur).
                    (pkg, case npm_view pkg of Some out \<Rightarrow> trim out | None \<Rightarrow> cur)) deps)
           in if fs_ok copy then (if fs_ok write then [copy, write] else [copy]) else [])) \<and>
     (\<not> (\<exists>entry \<in> set deps. \<exists>out. npm_view (fst entry) = Some out \<and> trim out \<noteq> snd entry) \<longrightarrow>
        performed (updateCategory fs_ok npm_view catalogPath cat (Some deps)) = []) \<and>
     (\<forall>entry \<in> set deps. npm_view (fst entry) = None \<longrightarrow>
        map_of (map (\<lambda>(pkg, cur).
                  (pkg, case npm_view pkg of Some out \<Rightarrow> trim out | None \<Rightarrow> cur)) deps)
          (fst entry) = Some (snd entry))"
proof -
  let ?init = "\<lparr>updatedDeps = [], updateCount = 0, reported = [Updating cat]\<rparr>"
  let ?st = "fold (refreshPackage npm_view) deps ?init"
  let ?new = "map (\<lambda>(pkg, cur).
      (pkg, case npm_view pkg of Some out \<Rightarrow> trim out | None \<Rightarrow> cur)) deps"
  let ?changed = "\<exists>entry \<in> set deps. \<exists>out. npm_view (fst entry) = Some out \<and> trim out \<noteq> snd entry"
  have f: "updatedDeps ?st = ?new \<and>
      updateCount ?st =
        length (filter (\<lambda>(pkg, cur). \<exists>out. npm_view pkg = Some out \<and> trim out \<noteq> cur) deps)"
    using refreshPackage_fold [OF assms, of ?init npm_view] by simp
  have cnt: "updateCount ?st > 0 \<longleftrightarrow> ?changed"
    by (simp add: f filter_empty_conv case_prod_unfold)
  have p1: "?changed \<Longrightarrow> performed (updateCategory fs_ok npm_view catalogPath cat (Some deps)) =
          (let filePath = join catalogPath (cat @ ''.json'');
               copy = CopyFile filePath (filePath @ ''.backup'');
               write = WriteFile filePath ?new
           in if fs_ok copy then (if fs_ok write then [copy, write] else [copy]) else [])"
    using cnt f by (simp add: updateCategory_def Let_def)
  have p2: "\<not> ?changed \<Longrightarrow>
      performed (updateCategory fs_ok npm_view catalogPath cat (Some deps)) = []"
    using cnt by (simp add: updateCategory_def Let_def)
  have p3: "map_of ?new (fst entry) = Some (snd entry)"
    if "entry \<in> set deps" "npm_view (fst entry) = None" for entry
  proof -
    have "distinct (map fst ?new)"
      using assms by (simp add: comp_def case_prod_unfold)
    moreover have "(case entry of (pkg, cur) \<Rightarrow>
        (pkg, case npm_view pkg of Some out \<Rightarrow> trim out | None \<Rightarrow> cur)) = (fst entry, snd entry)"
      using that(2) by (cases entry) simp
    then have "(fst entry, snd entry) \<in> set ?new"
      using that(1) by (auto simp: image_iff intro!: bexI [of _ entry])
    ultimately show ?thesis by (rule map_of_is_SomeI)
  qed
  show ?thesis using p1 p2 p3 by blast
qed

theorem updateCategory_backup_witness:
  "performed (updateCategory (\<lambda>op. True)
      [''a'' \<mapsto> ''1.0.0'' @ [CHR 0x0A], ''b'' \<mapsto> ''2.1.0'' @ [CHR 0x0A]]
      ''catalog'' ''core'' (Some [(''a'', ''1.0.0''), (''b'', ''2.0.0'')])) =
     [CopyFile ''catalog/core.json'' ''catalog/core.json.backup'',
      WriteFile ''catalog/core.json'' [(''a'', ''1.0.0''), (''b'', ''2.1.0'')]] \<and>
   lines (updateCategory (\<lambda>op. True)
      [''a'' \<mapsto> ''1.0.0'' @ [CHR 0x0A], ''b'' \<mapsto> ''2.1.0'' @ [CHR 0x0A]]
      ''catalog'' ''core'' (Some [(''a'', ''1.0.0''), (''b'', ''2.0.0'')])) =
     [Updating ''core'', NoChanges ''a'' ''1.0.0'', Updated ''b'' ''2.0.0'' ''2.1.0'',
      UpdatedSuccessfully ''core'', BackupSaved ''catalog/core.json.backup'', Reminder] \<and>
   performed (updateCategory (\<lambda>op. True) [''a'' \<mapsto> ''1.0.0'']
      ''catalog'' ''core'' (Some [(''a'', ''1.0.0''), (''b'', ''2.0.0'')])) = []"
proof -
  let ?deps = "[(''a'', ''1.0.0''), (''b'', ''2.0.0'')]"
  let ?view = "[''a'' \<mapsto> ''1.0.0'' @ [CHR 0x0A], ''b'' \<mapsto> ''2.1.0'' @ [CHR 0x0A]]"
  have d: "distinct (map fst ?deps)" by simp
  have t: "trim (''2.1.0'' @ [CHR 0x0A]) = ''2.1.0''" "trim (''1.0.0'' @ [CHR 0x0A]) = ''1.0.0''"
    "trim ''1.0.0'' = ''1.0.0''"
    by (simp_all add: trim_def is_space_def)
  have c: "\<exists>entry \<in> set ?deps. \<exists>out. ?view (fst entry) = Some out \<and> trim out \<noteq> snd entry"
    using t by simp
  have n: "\<not> (\<exists>entry \<in> set ?deps. \<exists>out.
      [''a'' \<mapsto> ''1.0.0''] (fst entry) = Some out \<and> trim out \<noteq> snd entry)"
    using t by simp
  have l: "lines (updateCategory (\<lambda>op. True) ?view ''catalog'' ''core'' (Some ?deps)) =
     [Updating ''core'', NoChanges ''a'' ''1.0.0'', Updated ''b'' ''2.0.0'' ''2.1.0'',
      UpdatedSuccessfully ''core'', BackupSaved ''catalog/core.json.backup'', Reminder]"
    using t by (simp add: updateCategory_def refreshPackage_def join_def Let_def)
  show ?thesis
    using updateCategory_backup [OF d, of ?view "\<lambda>op. True" "''catalog''" "''core''"]
      updateCategory_backup [OF d, of "[''a'' \<mapsto> ''1.0.0'']" "\<lambda>op. True" "''catalog''" "''core''"]
      c n l t
    by (simp add: join_def Let_def)
qed

end
